theory Spec2Isabelle
  imports Main
begin

section \<open>Data model\<close>

text \<open>
  A Python \<open>str\<close> is a sequence of Unicode code points; a code point is a natural number.
  The entries of \<open>data\<close> in \<open>load_and_analyze\<close> are dictionaries with the two keys
  \<open>"name"\<close> and \<open>"count"\<close>; \<open>count\<close> is the \<open>len\<close> of a list, a natural number.
\<close>

type_synonym pystr = "nat list"

record entry =
  name :: pystr
  count :: nat

section \<open>Ranking: \<open>data.sort(key=lambda x: x["count"], reverse=True)\<close>\<close>

text \<open>
  \<open>list.sort\<close> is stable, and with \<open>reverse=True\<close> it sorts as if each comparison were
  reversed, still keeping elements with equal keys in their original order. The model is
  the stable insertion sort with the comparison reversed: an element is put in front of the
  first element of the sorted rest whose key is not greater than its own.
\<close>

fun insort_reverse :: "('a \<Rightarrow> nat) \<Rightarrow> 'a \<Rightarrow> 'a list \<Rightarrow> 'a list" where
  "insort_reverse k x [] = [x]"
| "insort_reverse k x (y # ys) =
     (if k x < k y then y # insort_reverse k x ys else x # y # ys)"

fun sort_reverse :: "('a \<Rightarrow> nat) \<Rightarrow> 'a list \<Rightarrow> 'a list" where
  "sort_reverse k [] = []"
| "sort_reverse k (x # xs) = insort_reverse k x (sort_reverse k xs)"

definition rank :: "entry list \<Rightarrow> entry list" where
  "rank data = sort_reverse count data"

section \<open>Text: code points, whitespace, \<open>strip\<close> and \<open>split\<close>\<close>

definition ascii :: "string \<Rightarrow> pystr" where
  "ascii s = map of_char s"

definition comma :: nat where "comma = 44"
definition LF :: nat where "LF = 10"
definition CR :: nat where "CR = 13"
definition slash :: nat where "slash = 47"
definition dot :: nat where "dot = 46"

text \<open>
  \<open>str.strip()\<close> without argument removes the characters for which \<open>str.isspace\<close> holds:
  tab to carriage return, the four separators \<open>0x1C\<close> to \<open>0x1F\<close>, the space, and beyond
  ASCII the code points \<open>0x85\<close>, \<open>0xA0\<close>, \<open>0x1680\<close>, \<open>0x2000\<close> to \<open>0x200A\<close>, \<open>0x2028\<close>,
  \<open>0x2029\<close>, \<open>0x202F\<close>, \<open>0x205F\<close> and \<open>0x3000\<close>.
\<close>

definition isspace :: "nat \<Rightarrow> bool" where
  "isspace c =
     ((9 \<le> c \<and> c \<le> 13) \<or> (28 \<le> c \<and> c \<le> 32) \<or> c = 133 \<or> c = 160 \<or> c = 5760
      \<or> (8192 \<le> c \<and> c \<le> 8202) \<or> c = 8232 \<or> c = 8233 \<or> c = 8239 \<or> c = 8287
      \<or> c = 12288)"

definition lstrip :: "pystr \<Rightarrow> pystr" where
  "lstrip s = dropWhile isspace s"

definition rstrip :: "pystr \<Rightarrow> pystr" where
  "rstrip s = rev (dropWhile isspace (rev s))"

definition strip :: "pystr \<Rightarrow> pystr" where
  "strip s = rstrip (lstrip s)"

text \<open>
  \<open>s.split(sep)\<close> for a separator of one character: the pieces between the separators, in
  order; \<open>n\<close> separators give \<open>n + 1\<close> pieces, so the result is never empty and the pieces
  of the empty string are the one empty string.
\<close>

fun split :: "nat \<Rightarrow> pystr \<Rightarrow> pystr list" where
  "split sep [] = [[]]"
| "split sep (c # cs) =
     (if c = sep then [] # split sep cs
      else (case split sep cs of [] \<Rightarrow> [[c]] | p # ps \<Rightarrow> (c # p) # ps))"

section \<open>Chart series: \<open>update_graph\<close>\<close>

text \<open>
  \<open>exclude_text = self.exclude_input.text().strip()\<close>, then
  \<open>[name.strip() for name in exclude_text.split(",") if name.strip()] if exclude_text else []\<close>.
\<close>

definition exclude_names :: "pystr \<Rightarrow> pystr list" where
  "exclude_names text =
     (let exclude_text = strip text in
      if exclude_text \<noteq> []
      then map strip (filter (\<lambda>name. strip name \<noteq> []) (split comma exclude_text))
      else [])"

text \<open>\<open>[d for d in data if d["name"] not in exclude_names]\<close>\<close>

definition filtered_data :: "entry list \<Rightarrow> pystr \<Rightarrow> entry list" where
  "filtered_data data text = filter (\<lambda>d. name d \<notin> set (exclude_names text)) data"

definition names :: "entry list \<Rightarrow> pystr list" where
  "names fd = map name fd"

definition counts :: "entry list \<Rightarrow> nat list" where
  "counts fd = map count fd"

text \<open>
  The chart gets \<open>counts[::-1]\<close> as the bar widths and \<open>names[::-1]\<close> as the tick labels, at
  the positions \<open>range(len(names))\<close>.
\<close>

definition chart_counts :: "entry list \<Rightarrow> pystr \<Rightarrow> nat list" where
  "chart_counts data text = rev (counts (filtered_data data text))"

definition chart_names :: "entry list \<Rightarrow> pystr \<Rightarrow> pystr list" where
  "chart_names data text = rev (names (filtered_data data text))"

text \<open>
  The chart series as a sequence of records: the filtered list in the order in which the
  chart shows it, last entry first. Its two columns are the two reversed lists above
  (lemma \<open>to_chart_series_columns\<close>).
\<close>

definition to_chart_series :: "entry list \<Rightarrow> pystr \<Rightarrow> entry list" where
  "to_chart_series data text = rev (filtered_data data text)"

section \<open>Reading a file: \<open>len(f.readlines())\<close>\<close>

text \<open>
  \<open>open(file_path, 'r', encoding=...)\<close> reads text with universal newlines: a line ends at
  \<open>"\n"\<close>, at \<open>"\r\n"\<close> or at a \<open>"\r"\<close> that no \<open>"\n"\<close> follows, and each of the three reaches
  the caller as \<open>"\n"\<close>.
\<close>

fun universal_newlines :: "pystr \<Rightarrow> pystr" where
  "universal_newlines [] = []"
| "universal_newlines [c] = [if c = CR then LF else c]"
| "universal_newlines (c # d # cs) =
     (if c = CR \<and> d = LF then LF # universal_newlines cs
      else if c = CR then LF # universal_newlines (d # cs)
      else c # universal_newlines (d # cs))"

text \<open>
  The lines of a text, each with its \<open>"\n"\<close>; what follows the last \<open>"\n"\<close> is a line of its
  own when it is not empty.
\<close>

fun keepends :: "pystr \<Rightarrow> pystr list" where
  "keepends [] = []"
| "keepends (c # cs) =
     (if c = LF then [LF] # keepends cs
      else (case keepends cs of [] \<Rightarrow> [[c]] | l # ls \<Rightarrow> (c # l) # ls))"

definition readlines :: "pystr \<Rightarrow> pystr list" where
  "readlines text = keepends (universal_newlines text)"

text \<open>
  A discovered file: its path, and what opening it with each of the two encodings and
  reading it to the end gives, which is the decoded text or the exception raised on the
  way. The exception carries its message \<open>str(e)\<close>; \<open>UnicodeDecodeError\<close> is the one the
  inner \<open>except\<close> clause catches, every other \<open>Exception\<close> goes to the outer one.
\<close>

datatype exn = UnicodeDecodeError pystr | OtherException pystr

fun str_of :: "exn \<Rightarrow> pystr" where
  "str_of (UnicodeDecodeError m) = m"
| "str_of (OtherException m) = m"

record txt_file =
  file_path :: pystr
  read_utf8 :: "exn + pystr"
  read_cp932 :: "exn + pystr"

text \<open>
  The two nested \<open>try\<close> blocks: the line count, or the exception that reaches
  \<open>except Exception as e\<close>.
\<close>

definition count_lines :: "txt_file \<Rightarrow> exn + nat" where
  "count_lines f =
     (case read_utf8 f of
        Inr text \<Rightarrow> Inr (length (readlines text))
      | Inl (UnicodeDecodeError m) \<Rightarrow>
          (case read_cp932 f of
             Inr text \<Rightarrow> Inr (length (readlines text))
           | Inl e \<Rightarrow> Inl e)
      | Inl (OtherException m) \<Rightarrow> Inl (OtherException m))"

section \<open>The nickname: \<open>os.path.splitext(os.path.basename(file_path))[0]\<close>\<close>

text \<open>\<open>p.rfind(c)\<close>: the last index of \<open>c\<close> in \<open>p\<close>, or \<open>-1\<close>.\<close>

fun rfind :: "pystr \<Rightarrow> nat \<Rightarrow> int" where
  "rfind [] c = - 1"
| "rfind (x # xs) c =
     (let r = rfind xs c in if 0 \<le> r then r + 1 else if x = c then 0 else - 1)"

text \<open>
  \<open>os.path\<close> is taken as \<open>posixpath\<close>, with \<open>/\<close> the one separator.
  \<open>basename\<close>: \<open>i = p.rfind('/') + 1; return p[i:]\<close>.
\<close>

definition basename :: "pystr \<Rightarrow> pystr" where
  "basename p = drop (nat (rfind p slash + 1)) p"

text \<open>
  \<open>posixpath.splitext\<close>: the extension starts at the last dot, when that dot comes after
  the last slash and after a character of the file name that is not a dot.
\<close>

definition splitext :: "pystr \<Rightarrow> pystr \<times> pystr" where
  "splitext p =
     (let sepIndex = rfind p slash; dotIndex = rfind p dot in
      if sepIndex < dotIndex
         \<and> list_ex (\<lambda>c. c \<noteq> dot) (drop (nat (sepIndex + 1)) (take (nat dotIndex) p))
      then (take (nat dotIndex) p, drop (nat dotIndex) p)
      else (p, []))"

definition nickname :: "txt_file \<Rightarrow> pystr" where
  "nickname f = fst (splitext (basename (file_path f)))"

section \<open>The analysis request: \<open>load_and_analyze\<close>\<close>

text \<open>\<open>print(f"Error reading {filename}: {e}")\<close>: the line printed.\<close>

definition error_line :: "pystr \<Rightarrow> exn \<Rightarrow> pystr" where
  "error_line filename e = ascii ''Error reading '' @ filename @ ascii '': '' @ str_of e"

text \<open>
  \<open>print\<close> encodes the line for \<open>sys.stdout\<close> and raises \<open>UnicodeEncodeError\<close> when the
  stream cannot encode it. The call stands in the \<open>except\<close> clause, outside every \<open>try\<close>
  block, so this exception is caught nowhere: it ends the loop and the request. The
  predicate \<open>accepts\<close> tells which lines the stream encodes.
\<close>

datatype uncaught = UnicodeEncodeError pystr
  \<comment> \<open>raised by \<open>print\<close>, with the line it was given\<close>

text \<open>
  The loop over \<open>files\<close>, on the list \<open>data\<close> and the lines printed so far: a file whose
  reading raises prints its line and the loop goes on (\<open>continue\<close>), every other file appends
  its entry.
\<close>

fun read_files ::
  "(pystr \<Rightarrow> bool) \<Rightarrow> txt_file list \<Rightarrow> entry list \<times> pystr list
     \<Rightarrow> uncaught + entry list \<times> pystr list" where
  "read_files accepts [] acc = Inr acc"
| "read_files accepts (f # fs) (data, out) =
     (case count_lines f of
        Inl e \<Rightarrow>
          (let line = error_line (basename (file_path f)) e in
           if accepts line then read_files accepts fs (data, out @ [line])
           else Inl (UnicodeEncodeError line))
      | Inr line_count \<Rightarrow>
          read_files accepts fs (data @ [\<lparr>name = nickname f, count = line_count\<rparr>], out))"

text \<open>
  What the window shows and what the request can change: the rows of the table (rank,
  nickname, count), the bar widths and tick labels handed to the chart, the text of the
  exclusion field, the message boxes shown and the lines printed. The drawing itself
  (\<open>tight_layout\<close>, \<open>draw\<close>) is not part of the model.
\<close>

datatype message_box = Warning_no_txt_files pystr
  \<comment> \<open>\<open>QMessageBox.warning\<close> saying that the directory named holds no txt file\<close>

record window =
  table :: "(nat \<times> pystr \<times> nat) list"
  bars :: "nat list"
  yticklabels :: "pystr list"
  exclude_input :: pystr
  message_boxes :: "message_box list"
  stdout :: "pystr list"

definition target_dir :: pystr where
  "target_dir = ascii ''talk_upload''"

text \<open>
  \<open>update_table\<close>: one row per entry; its cells show \<open>str(i + 1)\<close>, the name and the count
  with thousands separators. A row of the model keeps the three values.
\<close>

definition update_table :: "entry list \<Rightarrow> window \<Rightarrow> window" where
  "update_table data w =
     w\<lparr>table := map (\<lambda>(i, item). (i + 1, name item, count item)) (enumerate 0 data)\<rparr>"

definition update_graph :: "entry list \<Rightarrow> window \<Rightarrow> window" where
  "update_graph data w =
     w\<lparr>bars := chart_counts data (exclude_input w),
       yticklabels := chart_names data (exclude_input w)\<rparr>"

text \<open>
  \<open>files\<close> is the list \<open>glob.glob\<close> returned for \<open>*.txt\<close> in the target directory, in its
  order. With no file the request shows the warning and returns; otherwise it reads the
  files, sorts, and updates the table and the chart. The function returns no value: what
  a request produces is the window it leaves, or the exception that ended it.
\<close>

definition load_and_analyze ::
  "(pystr \<Rightarrow> bool) \<Rightarrow> txt_file list \<Rightarrow> window \<Rightarrow> uncaught + window" where
  "load_and_analyze accepts files w =
     (if files = []
      then Inr (w\<lparr>message_boxes := message_boxes w @ [Warning_no_txt_files target_dir]\<rparr>)
      else
        (case read_files accepts files ([], []) of
           Inl e \<Rightarrow> Inl e
         | Inr (data, out) \<Rightarrow>
             (let data = rank data;
                  w = w\<lparr>stdout := stdout w @ out\<rparr>
              in Inr (update_graph data (update_table data w)))))"

text \<open>
  The loop from the empty list, and the list after the sort: the records in discovery order
  with the lines printed, and the ranked series, of a request that the loop does not end.
\<close>

definition discover_and_count ::
  "(pystr \<Rightarrow> bool) \<Rightarrow> txt_file list \<Rightarrow> uncaught + entry list \<times> pystr list" where
  "discover_and_count accepts files = read_files accepts files ([], [])"

definition ranked_series :: "(pystr \<Rightarrow> bool) \<Rightarrow> txt_file list \<Rightarrow> uncaught + entry list" where
  "ranked_series accepts files =
     (case discover_and_count accepts files of
        Inl e \<Rightarrow> Inl e
      | Inr (data, out) \<Rightarrow> Inr (rank data))"

text \<open>
  A stream that encodes with UTF-8 and the error handler \<open>strict\<close> encodes every code point
  but the surrogates \<open>0xD800\<close> to \<open>0xDFFF\<close>, which stand in a file name for the bytes that
  the file system encoding could not decode.
\<close>

definition utf8_stdout :: "pystr \<Rightarrow> bool" where
  "utf8_stdout line = list_all (\<lambda>c. c < 55296 \<or> 57343 < c) line"

section \<open>Notions of the specification\<close>

text \<open>
  The exclusion set in the words of the specification, without the functions of the code.
  The comma-separated pieces of a string are the strings without comma that give the
  string back when they are joined with commas. A piece trimmed is the piece without the
  whitespace at its two ends: what is left is empty, or begins and ends with a character
  that is no whitespace. The terms are the trimmed pieces that are not empty.
\<close>

definition whitespace :: "nat set" where
  "whitespace =
     {9..13} \<union> {28..32} \<union> {133, 160, 5760} \<union> {8192..8202} \<union> {8232, 8233, 8239, 8287, 12288}"

fun join :: "nat \<Rightarrow> pystr list \<Rightarrow> pystr" where
  "join sep [] = []"
| "join sep [p] = p"
| "join sep (p # q # ps) = p @ sep # join sep (q # ps)"

definition trimmed :: "pystr \<Rightarrow> pystr \<Rightarrow> bool" where
  "trimmed piece t =
     (\<exists>before after. piece = before @ t @ after
        \<and> set before \<subseteq> whitespace \<and> set after \<subseteq> whitespace
        \<and> (t = [] \<or> hd t \<notin> whitespace \<and> last t \<notin> whitespace))"

definition terms_of :: "pystr \<Rightarrow> pystr set" where
  "terms_of raw =
     {t. t \<noteq> [] \<and>
         (\<exists>pieces piece. join comma pieces = raw \<and> list_all (\<lambda>p. comma \<notin> set p) pieces
            \<and> piece \<in> set pieces \<and> trimmed piece t)}"

text \<open>
  A text written under one line-ending convention: lines that hold no line break
  themselves, each followed by the terminator of the convention, and then the characters
  after the last terminator, which are a last line without terminator when there are any.
\<close>

datatype newline = Unix | Windows | Old_Mac

fun terminator :: "newline \<Rightarrow> pystr" where
  "terminator Unix = [LF]"
| "terminator Windows = [CR, LF]"
| "terminator Old_Mac = [CR]"

definition plain :: "pystr \<Rightarrow> bool" where
  "plain l = (CR \<notin> set l \<and> LF \<notin> set l)"

definition text_of_lines :: "newline \<Rightarrow> pystr list \<Rightarrow> pystr \<Rightarrow> pystr" where
  "text_of_lines nl ls rest = concat (map (\<lambda>l. l @ terminator nl) ls) @ rest"


text \<open>
  A text with the terminators of the three conventions mixed: each line has its own
  terminator. The lines hold no line break themselves, and a line that ends with \<open>"\r"\<close> is
  not followed by an empty line that ends with \<open>"\n"\<close>, since the two characters together are
  the one terminator \<open>"\r\n"\<close>. Every text is such a text (lemma \<open>decompose_correct\<close>).
\<close>

definition text_of :: "(pystr \<times> newline) list \<Rightarrow> pystr \<Rightarrow> pystr" where
  "text_of lines rest = concat (map (\<lambda>(l, nl). l @ terminator nl) lines) @ rest"



section \<open>Example files\<close>

text \<open>
  Three lines in UTF-8, the last without terminator; two lines in cp932 that UTF-8
  rejects, with Windows line ends; a file that neither encoding decodes; an empty file.
\<close>

definition alice_txt :: txt_file where
  "alice_txt = \<lparr>file_path = ascii ''talk_upload/alice.txt'',
     read_utf8 = Inr (ascii ''hi'' @ [LF] @ ascii ''yo'' @ [LF] @ ascii ''ok''),
     read_cp932 = Inr (ascii ''hi'' @ [LF] @ ascii ''yo'' @ [LF] @ ascii ''ok'')\<rparr>"

definition bob_txt :: txt_file where
  "bob_txt = \<lparr>file_path = ascii ''talk_upload/bob.txt'',
     read_utf8 = Inl (UnicodeDecodeError (ascii ''invalid start byte'')),
     read_cp932 = Inr [12354, CR, LF, 12356, CR, LF]\<rparr>"

definition carol_txt :: txt_file where
  "carol_txt = \<lparr>file_path = ascii ''talk_upload/carol.txt'',
     read_utf8 = Inl (UnicodeDecodeError (ascii ''invalid start byte'')),
     read_cp932 = Inl (UnicodeDecodeError (ascii ''illegal multibyte sequence''))\<rparr>"

definition empty_txt :: txt_file where
  "empty_txt = \<lparr>file_path = ascii ''talk_upload/empty.txt'',
     read_utf8 = Inr [], read_cp932 = Inr []\<rparr>"

text \<open>
  Three lines in cp932 that UTF-8 rejects, the first two ended by \<open>"\r"\<close> alone. A file
  with Windows line ends whose one line holds a \<open>"\n"\<close>, and a text that holds a \<open>"\n"\<close> and
  then a \<open>"\r"\<close>. A file that neither encoding decodes and whose name holds the two bytes
  \<open>0x82 0xA0\<close>, which the file system encoding UTF-8 hands over as the surrogates \<open>0xDC82\<close>
  and \<open>0xDCA0\<close>.
\<close>

definition chris_txt :: txt_file where
  "chris_txt = \<lparr>file_path = ascii ''talk_upload/chris.txt'',
     read_utf8 = Inl (UnicodeDecodeError (ascii ''invalid start byte'')),
     read_cp932 = Inr [12354, CR, 12356, CR, 12358]\<rparr>"

definition dave_txt :: txt_file where
  "dave_txt = \<lparr>file_path = ascii ''talk_upload/dave.txt'',
     read_utf8 = Inr [97, LF, 98, CR, LF], read_cp932 = Inr [97, LF, 98, CR, LF]\<rparr>"

definition erin_txt :: txt_file where
  "erin_txt = \<lparr>file_path = ascii ''talk_upload/erin.txt'',
     read_utf8 = Inr [97, LF, CR, 98], read_cp932 = Inr [97, LF, CR, 98]\<rparr>"

definition legacy_txt :: txt_file where
  "legacy_txt = \<lparr>file_path = ascii ''talk_upload/'' @ [56450, 56480] @ ascii ''.txt'',
     read_utf8 = Inl (UnicodeDecodeError (ascii ''invalid start byte'')),
     read_cp932 = Inl (UnicodeDecodeError (ascii ''illegal multibyte sequence''))\<rparr>"

text \<open>
  A record whose label holds a comma; a window that shows an earlier ranking; an exclusion
  text with a space, a tab and an ideographic space around its terms and with empty
  entries.
\<close>

definition a_comma_b :: entry where
  "a_comma_b = \<lparr>name = ascii ''a,b'', count = 1\<rparr>"

definition shown_window :: window where
  "shown_window = \<lparr>table = [(1, ascii ''alice'', 3)], bars = [3],
     yticklabels = [ascii ''alice''], exclude_input = [], message_boxes = [], stdout = []\<rparr>"

definition padded_terms :: pystr where
  "padded_terms = [32, 9] @ ascii ''alice'' @ [12288] @ ascii '',, bob ,''"

section \<open>Properties of the ranking\<close>

lemma length_insort_reverse: "length (insort_reverse k x ys) = Suc (length ys)"
  by (induction ys) simp_all

lemma length_sort_reverse: "length (sort_reverse k xs) = length xs"
  by (induction xs) (simp_all add: length_insort_reverse)

lemma set_insort_reverse: "set (insort_reverse k x ys) = insert x (set ys)"
  by (induction ys) auto


lemma sorted_insort_reverse:
  "sorted_wrt (\<lambda>a b. k b \<le> k a) ys \<Longrightarrow> sorted_wrt (\<lambda>a b. k b \<le> k a) (insort_reverse k x ys)"
  by (induction ys) (auto simp: set_insort_reverse)

lemma sorted_sort_reverse: "sorted_wrt (\<lambda>a b. k b \<le> k a) (sort_reverse k xs)"
  by (induction xs) (simp_all add: sorted_insort_reverse)

lemma filter_insort_reverse_other:
  "k x \<noteq> c \<Longrightarrow> filter (\<lambda>y. k y = c) (insort_reverse k x ys) = filter (\<lambda>y. k y = c) ys"
  by (induction ys) simp_all

lemma filter_insort_reverse_same:
  "filter (\<lambda>y. k y = k x) (insort_reverse k x ys) = x # filter (\<lambda>y. k y = k x) ys"
  by (induction ys) simp_all

lemma filter_sort_reverse:
  "filter (\<lambda>y. k y = c) (sort_reverse k xs) = filter (\<lambda>y. k y = c) xs"
proof (induction xs)
  case Nil
  then show ?case by simp
next
  case (Cons x xs)
  show ?case
  proof (cases "k x = c")
    case True
    then show ?thesis
      using Cons filter_insort_reverse_same [of k x "sort_reverse k xs"] by simp
  next
    case False
    then show ?thesis
      using Cons by (simp add: filter_insort_reverse_other)
  qed
qed

lemma insort_reverse_front:
  "\<forall>y \<in> set ys. k y \<le> k x \<Longrightarrow> insort_reverse k x ys = x # ys"
  by (cases ys) simp_all

lemma sort_reverse_sorted:
  "sorted_wrt (\<lambda>a b. k b \<le> k a) xs \<Longrightarrow> sort_reverse k xs = xs"
  by (induction xs) (simp_all add: insort_reverse_front)

section \<open>Properties of \<open>strip\<close>, \<open>split\<close> and the exclusion list\<close>

lemma split_nonempty: "split sep s \<noteq> []"
  by (induction s) (auto split: list.splits)

lemma split_no_sep: "p \<in> set (split sep s) \<Longrightarrow> sep \<notin> set p"
  by (induction s arbitrary: p) (auto split: list.splits if_splits)

lemma split_snoc:
  "c \<noteq> sep \<Longrightarrow> split sep (s @ [c]) = butlast (split sep s) @ [last (split sep s) @ [c]]"
  by (induction s) (auto simp: split_nonempty split: list.splits)

lemma comma_not_space: "\<not> isspace comma"
  by (simp add: isspace_def comma_def)

lemma rstrip_snoc: "rstrip (s @ [c]) = (if isspace c then rstrip s else s @ [c])"
  by (simp add: rstrip_def)

lemma lstrip_Cons: "lstrip (c # s) = (if isspace c then lstrip s else c # s)"
  by (simp add: lstrip_def)

lemma strip_Cons_space: "isspace c \<Longrightarrow> strip (c # s) = strip s"
  by (simp add: strip_def lstrip_def)

lemma strip_snoc_space: "isspace c \<Longrightarrow> strip (s @ [c]) = strip s"
proof (cases "\<forall>x \<in> set s. isspace x")
  case True
  assume "isspace c"
  from True have "dropWhile isspace s = []"
    by (simp only: dropWhile_eq_Nil_conv)
  moreover from True \<open>isspace c\<close> have "dropWhile isspace (s @ [c]) = []"
    by (simp add: dropWhile_append2)
  ultimately show ?thesis by (simp only: strip_def lstrip_def)
next
  case False
  assume c: "isspace c"
  from False have "dropWhile isspace (s @ [c]) = dropWhile isspace s @ [c]"
    by (auto simp: dropWhile_append1)
  with c show ?thesis by (simp add: strip_def lstrip_def rstrip_snoc)
qed

lemma set_strip: "set (strip s) \<subseteq> set s"
proof -
  have "set (strip s) \<subseteq> set (lstrip s)"
    unfolding strip_def rstrip_def using set_dropWhileD [of _ isspace "rev (lstrip s)"] by auto
  also have "\<dots> \<subseteq> set s"
    unfolding lstrip_def using set_dropWhileD [of _ isspace s] by auto
  finally show ?thesis .
qed

lemma map_strip_split_lstrip:
  "map strip (split comma (lstrip s)) = map strip (split comma s)"
proof (induction s)
  case Nil
  then show ?case by (simp add: lstrip_def)
next
  case (Cons c s)
  show ?case
  proof (cases "isspace c")
    case True
    then have "c \<noteq> comma" using comma_not_space by auto
    obtain p ps where ps: "split comma s = p # ps"
      using split_nonempty [of comma s] by (cases "split comma s") auto
    show ?thesis using True \<open>c \<noteq> comma\<close> Cons ps
      by (simp add: lstrip_Cons strip_Cons_space)
  next
    case False
    then show ?thesis by (simp add: lstrip_Cons)
  qed
qed

lemma map_strip_split_rstrip:
  "map strip (split comma (rstrip s)) = map strip (split comma s)"
proof (induction s rule: rev_induct)
  case Nil
  then show ?case by (simp add: rstrip_def)
next
  case (snoc c s)
  show ?case
  proof (cases "isspace c")
    case True
    then have "c \<noteq> comma" using comma_not_space by auto
    have "map strip (split comma (s @ [c]))
        = map strip (butlast (split comma s)) @ [strip (last (split comma s))]"
      using True \<open>c \<noteq> comma\<close> by (simp add: split_snoc strip_snoc_space)
    also have "\<dots> = map strip (butlast (split comma s) @ [last (split comma s)])"
      by simp
    also have "\<dots> = map strip (split comma s)"
      using split_nonempty [of comma s] by (metis append_butlast_last_id)
    finally show ?thesis using True snoc by (simp add: rstrip_snoc)
  next
    case False
    then show ?thesis by (simp add: rstrip_snoc)
  qed
qed

lemma map_strip_split_strip:
  "map strip (split comma (strip s)) = map strip (split comma s)"
  by (simp add: strip_def map_strip_split_rstrip map_strip_split_lstrip)

lemma strip_Nil: "strip [] = []"
  by (simp add: strip_def lstrip_def rstrip_def)

lemma exclude_names_eq:
  "exclude_names raw = filter (\<lambda>t. t \<noteq> []) (map strip (split comma raw))"
proof (cases "strip raw = []")
  case True
  have "map strip (split comma raw) = map strip (split comma (strip raw))"
    by (simp add: map_strip_split_strip)
  also have "\<dots> = [[]]" using True by (simp add: strip_Nil)
  finally show ?thesis using True by (simp add: exclude_names_def)
next
  case False
  have "map strip (filter (\<lambda>n. strip n \<noteq> []) (split comma (strip raw)))
      = filter (\<lambda>t. t \<noteq> []) (map strip (split comma (strip raw)))"
    by (simp add: filter_map comp_def)
  then show ?thesis using False by (simp add: exclude_names_def Let_def map_strip_split_strip)
qed

lemma exclude_names_no_comma: "t \<in> set (exclude_names raw) \<Longrightarrow> comma \<notin> set t"
  using split_no_sep [of _ comma raw] set_strip by (fastforce simp: exclude_names_eq)

lemma exclude_names_empty: "exclude_names [] = []"
  by (simp add: exclude_names_def strip_Nil)

section \<open>Properties of \<open>readlines\<close>\<close>













section \<open>The exclusion terms and the functions of the code\<close>

lemma isspace_whitespace: "isspace c \<longleftrightarrow> c \<in> whitespace"
  by (auto simp: isspace_def whitespace_def)

lemma join_split: "join sep (split sep s) = s"
proof (induction s)
  case Nil
  then show ?case by simp
next
  case (Cons c s)
  obtain p ps where ps: "split sep s = p # ps"
    using split_nonempty [of sep s] by (cases "split sep s") auto
  show ?case
  proof (cases "c = sep")
    case True
    with Cons ps show ?thesis by simp
  next
    case False
    with Cons ps show ?thesis by (cases ps) simp_all
  qed
qed

lemma split_plain: "sep \<notin> set p \<Longrightarrow> split sep p = [p]"
  by (induction p) auto

lemma split_piece:
  "sep \<notin> set p \<Longrightarrow> split sep (p @ sep # rest) = p # split sep rest"
  by (induction p) auto

lemma split_join:
  "pieces \<noteq> [] \<Longrightarrow> list_all (\<lambda>p. sep \<notin> set p) pieces \<Longrightarrow>
   split sep (join sep pieces) = pieces"
proof (induction sep pieces rule: join.induct)
  case (1 sep)
  then show ?case by simp
next
  case (2 sep p)
  then show ?case by (simp add: split_plain)
next
  case (3 sep p q ps)
  then show ?case by (simp add: split_piece)
qed

lemma rev_dropWhile_takeWhile: "rev xs = rev (dropWhile P xs) @ rev (takeWhile P xs)"
  by (metis rev_append takeWhile_dropWhile_id)

lemma lstrip_decompose: "lstrip s = strip s @ rev (takeWhile isspace (rev (lstrip s)))"
  using rev_dropWhile_takeWhile [of "rev (lstrip s)" isspace]
  by (simp add: strip_def rstrip_def)

lemma strip_decompose:
  "s = takeWhile isspace s @ strip s @ rev (takeWhile isspace (rev (lstrip s)))"
proof -
  have "s = takeWhile isspace s @ lstrip s" by (simp add: lstrip_def)
  then show ?thesis using lstrip_decompose [of s] by simp
qed

lemma strip_ends:
  "strip s = [] \<or> \<not> isspace (hd (strip s)) \<and> \<not> isspace (last (strip s))"
proof (cases "strip s = []")
  case True
  then show ?thesis by simp
next
  case False
  then have d: "dropWhile isspace (rev (lstrip s)) \<noteq> []"
    by (simp add: strip_def rstrip_def)
  then have "\<not> isspace (hd (dropWhile isspace (rev (lstrip s))))"
    by (rule hd_dropWhile)
  then have l: "\<not> isspace (last (strip s))"
    using d by (simp add: strip_def rstrip_def last_rev)
  have ls: "lstrip s \<noteq> []" using False by (auto simp: strip_def rstrip_def)
  then have h: "\<not> isspace (hd (lstrip s))"
    unfolding lstrip_def by (rule hd_dropWhile)
  have "hd (lstrip s) = hd (strip s)"
    using False lstrip_decompose [of s] by (metis hd_append2)
  with h l show ?thesis by simp
qed

lemma strip_trimmed: "trimmed s (strip s)"
  unfolding trimmed_def
proof (intro exI conjI)
  show "s = takeWhile isspace s @ strip s @ rev (takeWhile isspace (rev (lstrip s)))"
    by (rule strip_decompose)
  show "set (takeWhile isspace s) \<subseteq> whitespace"
    using set_takeWhileD [of _ isspace s] by (auto simp: isspace_whitespace)
  show "set (rev (takeWhile isspace (rev (lstrip s)))) \<subseteq> whitespace"
    using set_takeWhileD [of _ isspace "rev (lstrip s)"] by (auto simp: isspace_whitespace)
  show "strip s = [] \<or> hd (strip s) \<notin> whitespace \<and> last (strip s) \<notin> whitespace"
    using strip_ends [of s] by (simp add: isspace_whitespace)
qed

lemma trimmed_strip: "trimmed s t \<Longrightarrow> strip s = t"
proof -
  assume "trimmed s t"
  then obtain b a where s: "s = b @ t @ a" and b: "\<forall>x \<in> set b. isspace x"
    and a: "\<forall>x \<in> set a. isspace x"
    and t: "t = [] \<or> \<not> isspace (hd t) \<and> \<not> isspace (last t)"
    by (auto simp: trimmed_def isspace_whitespace)
  show ?thesis
  proof (cases "t = []")
    case True
    then have "\<forall>x \<in> set s. isspace x" using s a b by auto
    then have "lstrip s = []" unfolding lstrip_def by (simp only: dropWhile_eq_Nil_conv)
    then have "strip s = []" by (simp add: strip_def rstrip_def)
    with True show ?thesis by simp
  next
    case False
    with t have h: "\<not> isspace (hd t)" and l: "\<not> isspace (last t)" by simp_all
    from False h have "dropWhile isspace (t @ a) = t @ a"
      by (cases t) simp_all
    then have d: "lstrip s = t @ a" using s b by (simp add: lstrip_def dropWhile_append2)
    have "dropWhile isspace (rev a @ rev t) = dropWhile isspace (rev t)"
      using a by (intro dropWhile_append2) simp
    also have "\<dots> = rev t"
      using False l by (cases "rev t") (auto simp: last_rev hd_rev)
    finally show ?thesis using d by (simp add: strip_def rstrip_def)
  qed
qed

lemma terms_of_exclude_names: "terms_of raw = set (exclude_names raw)"
proof (intro set_eqI iffI)
  fix t
  assume "t \<in> terms_of raw"
  then obtain pieces piece where t: "t \<noteq> []" and j: "join comma pieces = raw"
    and c: "list_all (\<lambda>p. comma \<notin> set p) pieces" and p: "piece \<in> set pieces"
    and tr: "trimmed piece t"
    by (auto simp: terms_of_def)
  from p have "pieces \<noteq> []" by auto
  then have "split comma raw = pieces" using c j split_join [of pieces comma] by simp
  moreover have "strip piece = t" using tr by (rule trimmed_strip)
  ultimately show "t \<in> set (exclude_names raw)"
    using t p by (auto simp: exclude_names_eq)
next
  fix t
  assume "t \<in> set (exclude_names raw)"
  then obtain piece where t: "t \<noteq> []" and p: "piece \<in> set (split comma raw)"
    and s: "t = strip piece"
    by (auto simp: exclude_names_eq)
  have "list_all (\<lambda>p. comma \<notin> set p) (split comma raw)"
    using split_no_sep [of _ comma raw] by (auto simp: list_all_iff)
  then show "t \<in> terms_of raw"
    unfolding terms_of_def using t p s join_split [of comma raw] strip_trimmed [of piece]
    by blast
qed

section \<open>Texts with mixed line ends\<close>











lemma text_of_lines_text_of:
  "text_of_lines nl ls rest = text_of (map (\<lambda>l. (l, nl)) ls) rest"
  by (simp add: text_of_lines_def text_of_def comp_def)

section \<open>Properties of the loop over the files\<close>

lemma read_files_acc:
  "read_files accepts fs (data, out)
     = (case read_files accepts fs ([], []) of
          Inl e \<Rightarrow> Inl e
        | Inr (d, q) \<Rightarrow> Inr (data @ d, out @ q))"
proof (induction fs arbitrary: data out)
  case Nil
  then show ?case by simp
next
  case (Cons f fs)
  show ?case
  proof (cases "count_lines f")
    case (Inl e)
    then show ?thesis
      using Cons [of data "out @ [error_line (basename (file_path f)) e]"]
        Cons [of "[]" "[error_line (basename (file_path f)) e]"]
      by (simp add: Let_def split: sum.splits prod.splits)
  next
    case (Inr n)
    then show ?thesis
      using Cons [of "data @ [\<lparr>name = nickname f, count = n\<rparr>]" out]
        Cons [of "[\<lparr>name = nickname f, count = n\<rparr>]" "[]"]
      by (simp split: sum.splits prod.splits)
  qed
qed

lemma read_files_append:
  "read_files accepts (xs @ ys) acc
     = (case read_files accepts xs acc of
          Inl e \<Rightarrow> Inl e
        | Inr acc' \<Rightarrow> read_files accepts ys acc')"
proof (induction xs arbitrary: acc)
  case Nil
  then show ?case by simp
next
  case (Cons f xs)
  then show ?case by (cases acc; cases "count_lines f") (simp_all add: Let_def)
qed

lemma discover_and_count_append:
  "discover_and_count accepts (xs @ ys)
     = (case discover_and_count accepts xs of
          Inl e \<Rightarrow> Inl e
        | Inr (d1, q1) \<Rightarrow>
            (case discover_and_count accepts ys of
               Inl e \<Rightarrow> Inl e
             | Inr (d2, q2) \<Rightarrow> Inr (d1 @ d2, q1 @ q2)))"
proof (cases "read_files accepts xs ([], [])")
  case (Inl e)
  then show ?thesis by (simp add: discover_and_count_def read_files_append)
next
  case (Inr r)
  obtain d1 q1 where r: "r = (d1, q1)" by (cases r)
  show ?thesis
    using Inr r read_files_acc [of accepts ys d1 q1]
    by (simp add: discover_and_count_def read_files_append)
qed


lemma discover_and_count_raises:
  "count_lines f = Inl e \<Longrightarrow>
   discover_and_count accepts (f # fs)
     = (if accepts (error_line (basename (file_path f)) e)
        then (case discover_and_count accepts fs of
                Inl x \<Rightarrow> Inl x
              | Inr (d, q) \<Rightarrow> Inr (d, error_line (basename (file_path f)) e # q))
        else Inl (UnicodeEncodeError (error_line (basename (file_path f)) e)))"
  unfolding discover_and_count_def
  using read_files_acc [of accepts fs "[]" "[error_line (basename (file_path f)) e]"]
  by (simp add: Let_def split: sum.splits prod.splits)


lemma discover_and_count_skip:
  "count_lines f = Inl e \<Longrightarrow> accepts (error_line (basename (file_path f)) e) \<Longrightarrow>
   discover_and_count accepts (pre @ f # post)
     = (case discover_and_count accepts pre of
          Inl x \<Rightarrow> Inl x
        | Inr (d1, q1) \<Rightarrow>
            (case discover_and_count accepts post of
               Inl x \<Rightarrow> Inl x
             | Inr (d2, q2) \<Rightarrow>
                 Inr (d1 @ d2, q1 @ [error_line (basename (file_path f)) e] @ q2)))"
  by (simp add: discover_and_count_append [of accepts pre "f # post"]
      discover_and_count_raises split: sum.splits prod.splits)




lemma splitext_append: "fst (splitext p) @ snd (splitext p) = p"
  by (simp add: splitext_def Let_def)





section \<open>Properties of the request\<close>

lemma to_chart_series_columns:
  "chart_names data text = map name (to_chart_series data text)
   \<and> chart_counts data text = map count (to_chart_series data text)"
  by (simp add: chart_names_def chart_counts_def to_chart_series_def names_def counts_def rev_map)

lemma load_and_analyze_nonempty:
  "files \<noteq> [] \<Longrightarrow>
   load_and_analyze accepts files w
     = (case discover_and_count accepts files of
          Inl e \<Rightarrow> Inl e
        | Inr (data, out) \<Rightarrow>
            Inr (update_graph (rank data)
                   (update_table (rank data) (w\<lparr>stdout := stdout w @ out\<rparr>))))"
  by (simp add: load_and_analyze_def discover_and_count_def Let_def
      split: sum.splits prod.splits)

lemma count_lines_raises:
  "read_utf8 f = Inl (OtherException m) \<and> e = OtherException m
   \<or> read_utf8 f = Inl (UnicodeDecodeError m) \<and> read_cp932 f = Inl e
   \<Longrightarrow> count_lines f = Inl e"
  by (auto simp: count_lines_def)


text \<open>
  A file whose reading raises is skipped when its line can be printed: the records are
  those of the other files, and the line is printed between theirs.
\<close>

lemma skipped_when_printed:
  assumes "read_utf8 f = Inl (OtherException m) \<and> e = OtherException m
           \<or> read_utf8 f = Inl (UnicodeDecodeError m) \<and> read_cp932 f = Inl e"
    and "accepts (error_line (basename (file_path f)) e)"
  shows "discover_and_count accepts (pre @ f # post)
           = (case discover_and_count accepts pre of
                Inl x \<Rightarrow> Inl x
              | Inr (d1, q1) \<Rightarrow>
                  (case discover_and_count accepts post of
                     Inl x \<Rightarrow> Inl x
                   | Inr (d2, q2) \<Rightarrow>
                       Inr (d1 @ d2, q1 @ [error_line (basename (file_path f)) e] @ q2)))"
proof -
  have c: "count_lines f = Inl e" using assms(1) by (rule count_lines_raises)
  from c assms(2) show ?thesis by (rule discover_and_count_skip)
qed

lemma error_line_label:
  "error_line (basename (file_path f)) e
     = ascii ''Error reading '' @ nickname f @ snd (splitext (basename (file_path f)))
         @ ascii '': '' @ str_of e"
  using splitext_append [of "basename (file_path f)"]
  by (simp add: error_line_def nickname_def)

section \<open>The scenarios of the specification\<close>

text \<open>The definitions that evaluate the functions on concrete texts and files.\<close>

lemmas evaluation =
  ascii_def comma_def LF_def CR_def slash_def dot_def isspace_def lstrip_def rstrip_def
  strip_def exclude_names_def filtered_data_def names_def counts_def chart_counts_def
  chart_names_def to_chart_series_def readlines_def count_lines_def basename_def
  splitext_def nickname_def error_line_def discover_and_count_def ranked_series_def
  rank_def load_and_analyze_def update_table_def update_graph_def utf8_stdout_def
  target_dir_def text_of_def plain_def
  alice_txt_def bob_txt_def carol_txt_def empty_txt_def chris_txt_def dave_txt_def
  erin_txt_def legacy_txt_def shown_window_def padded_terms_def Let_def

lemma scenario_rank:
  "rank [\<lparr>name = ascii ''alice'', count = 3\<rparr>, \<lparr>name = ascii ''bob'', count = 10\<rparr>]
     = [\<lparr>name = ascii ''bob'', count = 10\<rparr>, \<lparr>name = ascii ''alice'', count = 3\<rparr>]"
  by (simp add: rank_def)

lemma scenario_exclude_one:
  "chart_names [\<lparr>name = ascii ''bob'', count = 10\<rparr>, \<lparr>name = ascii ''alice'', count = 3\<rparr>]
     (ascii ''alice'') = [ascii ''bob'']
   \<and> chart_counts [\<lparr>name = ascii ''bob'', count = 10\<rparr>, \<lparr>name = ascii ''alice'', count = 3\<rparr>]
     (ascii ''alice'') = [10]"
  by (simp add: evaluation)

lemma scenario_exclude_both:
  "to_chart_series [\<lparr>name = ascii ''bob'', count = 10\<rparr>, \<lparr>name = ascii ''alice'', count = 3\<rparr>]
     (ascii ''alice, bob'') = []"
  by (simp add: evaluation)

section \<open>The claims\<close>

text \<open>
  C1. For every sequence of records, \<open>rank\<close> returns a sequence of the same length that is
  sorted by count non-increasing, and the sort is stable: for every count \<open>c\<close>, the records
  with count \<open>c\<close> appear in the output in the order they had in the input.
\<close>

theorem rank_length_sorted_stable:
  "length (rank xs) = length xs
   \<and> sorted_wrt (\<lambda>a b. count b \<le> count a) (rank xs)
   \<and> filter (\<lambda>d. count d = c) (rank xs) = filter (\<lambda>d. count d = c) xs"
  unfolding rank_def
  by (simp add: length_sort_reverse sorted_sort_reverse filter_sort_reverse)

text \<open>
  C7. \<open>rank\<close> is idempotent: ranking an already ranked series returns that series.
\<close>

theorem rank_idempotent: "rank (rank xs) = rank xs"
  unfolding rank_def
  by (rule sort_reverse_sorted) (rule sorted_sort_reverse)

text \<open>
  C2. The list of excluded names that \<open>update_graph\<close> builds holds exactly the terms of the
  raw exclusion string: the comma-separated pieces, each without the whitespace at its two
  ends, the empty ones dropped. The chart series is the ranked input without the records
  whose label equals one of those terms, in reversed order: its records are exactly the
  records of the input whose label is no such term, so no record with an excluded label is
  returned and every record with an excluded label is removed. The labels and bars of the
  chart are its two columns.
\<close>

theorem to_chart_series_exclusion:
  "set (exclude_names raw) = terms_of raw
   \<and> to_chart_series data raw = rev (filter (\<lambda>d. name d \<notin> terms_of raw) data)
   \<and> set (to_chart_series data raw) = {d \<in> set data. name d \<notin> terms_of raw}
   \<and> chart_names data raw = map name (to_chart_series data raw)
   \<and> chart_counts data raw = map count (to_chart_series data raw)"
proof -
  have e: "set (exclude_names raw) = terms_of raw"
    by (simp only: terms_of_exclude_names)
  have s: "to_chart_series data raw = rev (filter (\<lambda>d. name d \<notin> terms_of raw) data)"
    by (simp only: to_chart_series_def filtered_data_def e)
  have m: "set (to_chart_series data raw) = {d \<in> set data. name d \<notin> terms_of raw}"
    by (simp add: s)
  from e s m to_chart_series_columns [of data raw] show ?thesis by blast
qed

text \<open>
  The theorem at the example text: its terms are \<open>alice\<close> and \<open>bob\<close>, both records named
  \<open>bob\<close> and the one named \<open>alice\<close> are removed, the records named \<open>Bob\<close> and \<open>bob\<close> with
  a leading space stay.
\<close>

theorem to_chart_series_exclusion_witness:
  "terms_of padded_terms
     = {ascii ''alice'', ascii ''bob''}
   \<and> to_chart_series
        [\<lparr>name = ascii ''bob'', count = 10\<rparr>, \<lparr>name = ascii '' bob'', count = 7\<rparr>,
         \<lparr>name = ascii ''alice'', count = 3\<rparr>, \<lparr>name = ascii ''bob'', count = 2\<rparr>,
         \<lparr>name = ascii ''Bob'', count = 1\<rparr>]
        padded_terms
     = [\<lparr>name = ascii ''Bob'', count = 1\<rparr>, \<lparr>name = ascii '' bob'', count = 7\<rparr>]"
proof -
  have x: "exclude_names padded_terms
     = [ascii ''alice'', ascii ''bob'']"
    by (simp add: evaluation)
  have t: "terms_of padded_terms
     = {ascii ''alice'', ascii ''bob''}"
  proof -
    have "set (exclude_names padded_terms)
        = terms_of padded_terms"
      using to_chart_series_exclusion
        [of padded_terms "[]"]
      by (rule conjunct1)
    then show ?thesis by (simp add: x)
  qed
  have s: "to_chart_series
        [\<lparr>name = ascii ''bob'', count = 10\<rparr>, \<lparr>name = ascii '' bob'', count = 7\<rparr>,
         \<lparr>name = ascii ''alice'', count = 3\<rparr>, \<lparr>name = ascii ''bob'', count = 2\<rparr>,
         \<lparr>name = ascii ''Bob'', count = 1\<rparr>]
        padded_terms
     = [\<lparr>name = ascii ''Bob'', count = 1\<rparr>, \<lparr>name = ascii '' bob'', count = 7\<rparr>]"
    by (simp add: evaluation)
  from t s show ?thesis by (rule conjI)
qed

text \<open>
  C3. With the empty exclusion string the chart series is the input reversed, the
  highest-ranked record last; the labels and bars of the chart are its columns.
\<close>

theorem to_chart_series_no_exclusion:
  "to_chart_series data [] = rev data
   \<and> chart_names data [] = rev (map name data)
   \<and> chart_counts data [] = rev (map count data)"
  by (simp add: to_chart_series_def chart_names_def chart_counts_def names_def counts_def
      filtered_data_def exclude_names_empty)

text \<open>
  C4. The request at three files, the second of which neither encoding decodes and has a
  name that UTF-8 cannot encode, with a standard output that encodes with UTF-8: reading
  the second file raises, \<open>print\<close> raises on its line, and the loop and the request end with
  that exception. Neither the first nor the third file is counted, though both are counted
  when the second file is not there. (When the line can be printed the file is skipped and
  the others are counted: lemma \<open>skipped_when_printed\<close>.)
\<close>

theorem unreadable_file_ends_request:
  "count_lines legacy_txt = Inl (UnicodeDecodeError (ascii ''illegal multibyte sequence''))
   \<and> discover_and_count utf8_stdout [alice_txt, legacy_txt, bob_txt]
       = Inl (UnicodeEncodeError
           (ascii ''Error reading '' @ [56450, 56480]
              @ ascii ''.txt: illegal multibyte sequence''))
   \<and> load_and_analyze utf8_stdout [alice_txt, legacy_txt, bob_txt] shown_window
       = Inl (UnicodeEncodeError
           (ascii ''Error reading '' @ [56450, 56480]
              @ ascii ''.txt: illegal multibyte sequence''))
   \<and> discover_and_count utf8_stdout [alice_txt, bob_txt]
       = Inr ([\<lparr>name = ascii ''alice'', count = 3\<rparr>, \<lparr>name = ascii ''bob'', count = 2\<rparr>], [])"
  by (simp add: evaluation)



text \<open>
  C6, as stated, fails: at a window that shows an earlier ranking, the request with no
  file leaves that ranking in the table, not an empty one.
\<close>

theorem no_files_previous_ranking_stays:
  "load_and_analyze utf8_stdout [] shown_window
     = Inr (shown_window\<lparr>message_boxes := [Warning_no_txt_files target_dir]\<rparr>)
   \<and> table (shown_window\<lparr>message_boxes := [Warning_no_txt_files target_dir]\<rparr>)
       = [(1, ascii ''alice'', 3)]"
  by (simp add: load_and_analyze_def shown_window_def)

text \<open>
  C6, amended. With no \<open>*.txt\<close> file the request shows the warning and changes nothing else:
  it builds no series, and the table, the chart and the printed lines are what they were
  before the request.
\<close>

theorem no_files_notice:
  "load_and_analyze accepts [] w
     = Inr (w\<lparr>message_boxes := message_boxes w @ [Warning_no_txt_files target_dir]\<rparr>)
   \<and> map_sum (\<lambda>e. e) table (load_and_analyze accepts [] w) = Inr (table w)
   \<and> map_sum (\<lambda>e. e) bars (load_and_analyze accepts [] w) = Inr (bars w)
   \<and> map_sum (\<lambda>e. e) yticklabels (load_and_analyze accepts [] w) = Inr (yticklabels w)
   \<and> map_sum (\<lambda>e. e) stdout (load_and_analyze accepts [] w) = Inr (stdout w)"
  by (simp add: load_and_analyze_def)






text \<open>
  C10. A record whose label contains a comma is never removed: its label is none of the
  excluded names, whatever the exclusion string is, and the record is in the chart series.
\<close>

theorem comma_label_survives:
  assumes "comma \<in> set (name d)" and "d \<in> set data"
  shows "name d \<notin> set (exclude_names raw) \<and> d \<in> set (to_chart_series data raw)"
proof -
  from assms(1) have "name d \<notin> set (exclude_names raw)"
    using exclude_names_no_comma [of "name d" raw] by blast
  with assms(2) show ?thesis by (simp add: to_chart_series_def filtered_data_def)
qed

text \<open>The theorem at the example files.\<close>

theorem comma_label_survives_witness:
  "comma \<in> set (name a_comma_b) \<and> a_comma_b \<in> set [a_comma_b]
   \<and> name a_comma_b \<notin> set (exclude_names (ascii ''a,b''))
   \<and> a_comma_b \<in> set (to_chart_series [a_comma_b] (ascii ''a,b''))
   \<and> exclude_names (ascii ''a,b'') = [ascii ''a'', ascii ''b'']"
proof -
  have h: "comma \<in> set (name a_comma_b)"
    by (simp add: a_comma_b_def ascii_def comma_def)
  have e: "exclude_names (ascii ''a,b'') = [ascii ''a'', ascii ''b'']"
    by (simp add: evaluation)
  from comma_label_survives [OF h, of "[a_comma_b]" "ascii ''a,b''"] h e
  show ?thesis by simp
qed

end
